theory Spec2Isabelle
  imports Main "HOL-Library.Word" "HOL-Library.Signed_Division"
begin

unbundle bit_operations_syntax

section \<open>SmartBits: a binary-clock watch face (src/src/SmartBits.c)\<close>

subsection \<open>C scalar types of the 32-bit target\<close>

text \<open>
  \<^verbatim>\<open>int\<close> is a 32-bit two's-complement word (read by \<open>sint\<close>), \<^verbatim>\<open>unsigned short\<close>
  and the \<^verbatim>\<open>int16_t\<close> coordinates of the toolkit's \<^verbatim>\<open>GPoint\<close> are 16-bit words,
  \<^verbatim>\<open>uint8_t\<close> is an 8-bit word. Conversion to a narrower type keeps the low bits
  (\<open>ucast\<close>); promotion of an \<^verbatim>\<open>unsigned short\<close> to \<^verbatim>\<open>int\<close> zero-extends (\<open>ucast\<close>).
  Word arithmetic wraps; signed overflow of \<^verbatim>\<open>int\<close> is undefined in C, and no theorem
  below depends on a value in that range.
\<close>

type_synonym cint = "32 word"
type_synonym ushort = "16 word"
type_synonym int16 = "16 word"
type_synonym uint16 = "16 word"
type_synonym uint8 = "8 word"

text \<open>C's \<^verbatim>\<open>/\<close> and \<^verbatim>\<open>%\<close> on \<^verbatim>\<open>int\<close> truncate towards zero.\<close>

definition c_div :: "cint \<Rightarrow> cint \<Rightarrow> cint" where
  "c_div a b = word_of_int (sint a sdiv sint b)"

definition c_mod :: "cint \<Rightarrow> cint \<Rightarrow> cint" where
  "c_mod a b = word_of_int (sint a smod sint b)"

text \<open>Conversion of an integer to \<^verbatim>\<open>bool\<close>: true iff the value is not zero.\<close>

definition c_bool :: "cint \<Rightarrow> bool" where
  "c_bool v = (v \<noteq> 0)"

text \<open>Conversion of a \<^verbatim>\<open>bool\<close> to \<^verbatim>\<open>int\<close>: 1 or 0.\<close>

definition bool_int :: "bool \<Rightarrow> cint" where
  "bool_int b = (if b then 1 else 0)"

subsection \<open>Global constants\<close>

definition kSpace :: cint where "kSpace = 4"
definition kDotRadius :: cint where "kDotRadius = 12"

definition kMonthColumn :: cint where "kMonthColumn = 0"
definition kDayOfMonthColumn :: cint where "kDayOfMonthColumn = 1"
definition kHourColumn :: cint where "kHourColumn = 2"
definition kMinuteColumn :: cint where "kMinuteColumn = 3"
definition kSecondColumn :: cint where "kSecondColumn = 4"

definition kWeekDayLine :: cint where "kWeekDayLine = 5"

subsection \<open>The toolkit's drawing surface\<close>

text \<open>
  The toolkit (pebble.h) is outside the repository. Its \<^verbatim>\<open>GPoint\<close> is a pair of
  \<^verbatim>\<open>int16_t\<close> coordinates; its graphics context holds the current fill colour, and
  \<^verbatim>\<open>graphics_fill_circle\<close> draws a disc in that colour. The context is modelled as the fill
  colour together with the sequence of discs drawn so far, oldest first.
\<close>

record GPoint =
  gx :: int16
  gy :: int16

datatype GColor = GColorBlack | GColorWhite

record GContext =
  fill_color :: GColor
  circles :: "(GPoint \<times> uint16 \<times> GColor) list"

definition graphics_context_set_fill_color :: "GContext \<Rightarrow> GColor \<Rightarrow> GContext" where
  "graphics_context_set_fill_color ctx c = ctx\<lparr>fill_color := c\<rparr>"

definition graphics_fill_circle :: "GContext \<Rightarrow> GPoint \<Rightarrow> uint16 \<Rightarrow> GContext" where
  "graphics_fill_circle ctx p r = ctx\<lparr>circles := circles ctx @ [(p, r, fill_color ctx)]\<rparr>"

subsection \<open>Coordinate mapper and indicator renderer\<close>

definition getCenter :: "cint \<Rightarrow> cint \<Rightarrow> GPoint" where
  "getCenter col row =
     \<lparr>gx = ucast (kDotRadius * (1 + 2 * col) + kSpace * col + kSpace),
      gy = ucast (kDotRadius * (1 + 2 * row) + kSpace * row + c_div kSpace 2)\<rparr>"

definition toggle_led :: "GContext \<Rightarrow> cint \<Rightarrow> cint \<Rightarrow> bool \<Rightarrow> GContext" where
  "toggle_led ctx col row on =
     (let ctx = graphics_context_set_fill_color ctx (if on then GColorWhite else GColorBlack)
      in graphics_fill_circle ctx (getCenter col row) (ucast kDotRadius))"

subsection \<open>Time encoder\<close>

text \<open>The fields of \<^verbatim>\<open>struct tm\<close> that \<^verbatim>\<open>time_update\<close> reads.\<close>

record tm =
  tm_sec :: cint
  tm_min :: cint
  tm_hour :: cint
  tm_mday :: cint
  tm_mon :: cint
  tm_wday :: cint

text \<open>
  The four locals of \<^verbatim>\<open>time_update\<close> (lines 142 to 146), each as a function of the
  broken-down time and of \<^verbatim>\<open>clock_is_24h_style()\<close>.
\<close>

definition tu_hour :: "tm \<Rightarrow> bool \<Rightarrow> ushort" where
  "tu_hour t is_24h_style =
     (let hour = (ucast (if is_24h_style then tm_hour t else c_mod (tm_hour t) 12) :: ushort)
      in if \<not> is_24h_style \<and> 0 = (ucast hour :: cint) then 12 else hour)"

definition tu_pm :: "tm \<Rightarrow> bool" where
  "tu_pm t = c_bool (c_div (tm_hour t) 12)"

definition tu_month :: "tm \<Rightarrow> ushort" where
  "tu_month t = ucast (tm_mon t + 1)"

definition tu_week_day :: "tm \<Rightarrow> ushort" where
  "tu_week_day t = ucast (if 0 \<noteq> tm_wday t then tm_wday t else 7)"

text \<open>
  \<^verbatim>\<open>time_update\<close>: the current time and the display mode are the results of
  \<^verbatim>\<open>localtime\<close> and \<^verbatim>\<open>clock_is_24h_style\<close>, taken as arguments. The 29 calls of
  \<^verbatim>\<open>toggle_led\<close> follow in source order.
\<close>

definition time_update :: "tm \<Rightarrow> bool \<Rightarrow> GContext \<Rightarrow> GContext" where
  "time_update t is_24h_style ctx0 =
    (let hour = (ucast (tu_hour t is_24h_style) :: cint);
         pm = tu_pm t;
         month = (ucast (tu_month t) :: cint);
         week_day = (ucast (tu_week_day t) :: cint);

         ctx = toggle_led ctx0 kSecondColumn 0 (c_bool (tm_sec t AND 1));
         ctx = toggle_led ctx kSecondColumn 1 (c_bool (tm_sec t AND 2));
         ctx = toggle_led ctx kSecondColumn 2 (c_bool (tm_sec t AND 4));
         ctx = toggle_led ctx kSecondColumn 3 (c_bool (tm_sec t AND 8));
         ctx = toggle_led ctx kSecondColumn 4 (c_bool (tm_sec t AND 16));
         ctx = toggle_led ctx kSecondColumn 5 (c_bool (tm_sec t AND 32));

         ctx = toggle_led ctx kMinuteColumn 0 (c_bool (tm_min t AND 1));
         ctx = toggle_led ctx kMinuteColumn 1 (c_bool (tm_min t AND 2));
         ctx = toggle_led ctx kMinuteColumn 2 (c_bool (tm_min t AND 4));
         ctx = toggle_led ctx kMinuteColumn 3 (c_bool (tm_min t AND 8));
         ctx = toggle_led ctx kMinuteColumn 4 (c_bool (tm_min t AND 16));
         ctx = toggle_led ctx kMinuteColumn 5 (c_bool (tm_min t AND 32));

         ctx = toggle_led ctx kHourColumn 0 (c_bool (hour AND 1));
         ctx = toggle_led ctx kHourColumn 1 (c_bool (hour AND 2));
         ctx = toggle_led ctx kHourColumn 2 (c_bool (hour AND 4));
         ctx = toggle_led ctx kHourColumn 3 (c_bool (hour AND 8));
         ctx = toggle_led ctx kHourColumn 4
                 (c_bool (if is_24h_style then hour AND 16 else bool_int pm));
         ctx = toggle_led ctx kHourColumn kWeekDayLine (c_bool (week_day AND 1));

         ctx = toggle_led ctx kDayOfMonthColumn 0 (c_bool (tm_mday t AND 1));
         ctx = toggle_led ctx kDayOfMonthColumn 1 (c_bool (tm_mday t AND 2));
         ctx = toggle_led ctx kDayOfMonthColumn 2 (c_bool (tm_mday t AND 4));
         ctx = toggle_led ctx kDayOfMonthColumn 3 (c_bool (tm_mday t AND 8));
         ctx = toggle_led ctx kDayOfMonthColumn 4 (c_bool (tm_mday t AND 16));
         ctx = toggle_led ctx kDayOfMonthColumn kWeekDayLine (c_bool (week_day AND 2));

         ctx = toggle_led ctx kMonthColumn 0 (c_bool (month AND 1));
         ctx = toggle_led ctx kMonthColumn 1 (c_bool (month AND 2));
         ctx = toggle_led ctx kMonthColumn 2 (c_bool (month AND 4));
         ctx = toggle_led ctx kMonthColumn 3 (c_bool (month AND 8));
         ctx = toggle_led ctx kMonthColumn kWeekDayLine (c_bool (week_day AND 4))
     in ctx)"

subsection \<open>Status state, notification handlers and status layers\<close>

record BatteryChargeState =
  charge_percent :: uint8
  is_charging :: bool
  is_plugged :: bool

text \<open>The three layers, named by the globals that point to them.\<close>

datatype layer = s_time_layer | s_battery_layer | s_connected_layer

text \<open>
  The globals that the handlers write, and the set of layers marked dirty
  (\<^verbatim>\<open>layer_mark_dirty\<close> asks the toolkit to call the layer's update procedure).
\<close>

record globals =
  s_battery_current :: BatteryChargeState
  s_connected_current :: bool
  dirty :: "layer set"

definition layer_mark_dirty :: "layer \<Rightarrow> globals \<Rightarrow> globals" where
  "layer_mark_dirty l s = s\<lparr>dirty := insert l (dirty s)\<rparr>"

text \<open>The initial values of the globals (lines 30 to 37).\<close>

definition globals_init :: globals where
  "globals_init =
     \<lparr>s_battery_current = \<lparr>charge_percent = 0, is_charging = False, is_plugged = False\<rparr>,
      s_connected_current = False,
      dirty = {}\<rparr>"

definition handle_second_tick :: "globals \<Rightarrow> globals" where
  "handle_second_tick s = layer_mark_dirty s_time_layer s"

definition handle_battery :: "BatteryChargeState \<Rightarrow> globals \<Rightarrow> globals" where
  "handle_battery charge_state s =
     layer_mark_dirty s_battery_layer (s\<lparr>s_battery_current := charge_state\<rparr>)"

definition handle_connected :: "bool \<Rightarrow> globals \<Rightarrow> globals" where
  "handle_connected connected s =
     layer_mark_dirty s_connected_layer (s\<lparr>s_connected_current := connected\<rparr>)"

text \<open>\<^verbatim>\<open>battery_update\<close> has an empty body: two comments and no statement.\<close>

definition battery_update :: "globals \<Rightarrow> GContext \<Rightarrow> GContext" where
  "battery_update s ctx = ctx"

definition connected_update :: "globals \<Rightarrow> GContext \<Rightarrow> GContext" where
  "connected_update s ctx = toggle_led ctx 0 4 (s_connected_current s)"

subsection \<open>Reading the grid back\<close>

text \<open>
  The state of the indicator at an address is the colour of the last disc drawn at its
  centre: on when white. An address where nothing was drawn reads as off.
\<close>

definition led_on :: "GContext \<Rightarrow> cint \<Rightarrow> cint \<Rightarrow> bool" where
  "led_on ctx col row =
     (case find (\<lambda>(p, r, c). p = getCenter col row) (rev (circles ctx)) of
        None \<Rightarrow> False
      | Some (p, r, c) \<Rightarrow> c = GColorWhite)"

text \<open>
  The number shown by a column on the given rows, as the specification reads it: row \<open>r\<close>
  holds bit \<open>r\<close>.
\<close>

definition read_column :: "GContext \<Rightarrow> cint \<Rightarrow> nat list \<Rightarrow> nat" where
  "read_column ctx col rows = (\<Sum>r\<leftarrow>rows. if led_on ctx col (of_nat r) then 2 ^ r else 0)"

text \<open>
  The weekday as the specification reads it from the sixth row: bit 0 on the hour column,
  bit 1 on the day-of-month column, bit 2 on the month column.
\<close>

definition read_weekday :: "GContext \<Rightarrow> nat" where
  "read_weekday ctx =
     (if led_on ctx kHourColumn kWeekDayLine then 1 else 0)
   + (if led_on ctx kDayOfMonthColumn kWeekDayLine then 2 else 0)
   + (if led_on ctx kMonthColumn kWeekDayLine then 4 else 0)"

subsection \<open>Sample inputs\<close>

text \<open>
  23:59:59 on Saturday 31 December (the scenario of the specification), and 13:05:09 on
  Sunday 1 January.
\<close>

definition new_years_eve :: tm where
  "new_years_eve =
     \<lparr>tm_sec = 59, tm_min = 59, tm_hour = 23, tm_mday = 31, tm_mon = 11, tm_wday = 6\<rparr>"

definition new_years_day :: tm where
  "new_years_day =
     \<lparr>tm_sec = 9, tm_min = 5, tm_hour = 13, tm_mday = 1, tm_mon = 0, tm_wday = 0\<rparr>"

definition blank :: GContext where
  "blank = \<lparr>fill_color = GColorBlack, circles = []\<rparr>"

section \<open>Auxiliary facts\<close>

lemmas k_defs =
  kSpace_def kDotRadius_def kMonthColumn_def kDayOfMonthColumn_def kHourColumn_def
  kMinuteColumn_def kSecondColumn_def kWeekDayLine_def

subsection \<open>Words in a small non-negative range\<close>

lemma sint_range_uint:
  fixes w :: cint
  assumes "0 \<le> sint w"
  shows "uint w = sint w"
proof -
  have "sint w < 2 ^ 32"
    using sint_less [of w] by simp
  then have "take_bit 32 (sint w) = sint w"
    using assms by (simp add: take_bit_int_eq_self)
  then show ?thesis
    using uint_sint [of w] by simp
qed

lemma ucast16_small:
  fixes w :: cint
  assumes "uint w < 65536"
  shows "uint (ucast w :: 16 word) = uint w"
  using assms by (simp add: unsigned_ucast_eq take_bit_int_eq_self)

lemma ucast32_of_16:
  fixes h :: ushort
  shows "uint (ucast h :: cint) = uint h"
  using uint_lt2p [of h] by (simp add: unsigned_ucast_eq take_bit_int_eq_self)

lemma toggle_led_circles:
  "circles (toggle_led ctx col row on) =
     circles ctx @ [(getCenter col row, ucast kDotRadius, if on then GColorWhite else GColorBlack)]"
  by (simp add: toggle_led_def graphics_fill_circle_def graphics_context_set_fill_color_def)

lemma led_on_toggle_led:
  "led_on (toggle_led ctx col row on) c r =
     (if getCenter c r = getCenter col row then on else led_on ctx c r)"
  by (simp add: led_on_def toggle_led_circles)

lemma c_bool_AND:
  "c_bool (w AND 1) = bit w 0"
  "c_bool (w AND 2) = bit w 1"
  "c_bool (w AND 4) = bit w 2"
  "c_bool (w AND 8) = bit w 3"
  "c_bool (w AND 16) = bit w 4"
  "c_bool (w AND 32) = bit w 5"
  using bit_iff_and_push_bit_not_eq_0 [of w 0] bit_iff_and_push_bit_not_eq_0 [of w 1]
    bit_iff_and_push_bit_not_eq_0 [of w 2] bit_iff_and_push_bit_not_eq_0 [of w 3]
    bit_iff_and_push_bit_not_eq_0 [of w 4] bit_iff_and_push_bit_not_eq_0 [of w 5]
  by (simp_all add: c_bool_def)

lemma bits_sum:
  fixes w :: cint
  assumes "uint w < 2 ^ n"
  shows "horner_sum of_bool 2 (map (bit w) [0..<n]) = unat w"
proof -
  have "unat w < 2 ^ n"
    using assms by (simp add: unat_eq_nat_uint nat_less_iff del: nat_uint_eq)
  then have "take_bit n (unat w) = unat w"
    by (simp add: take_bit_nat_eq_self)
  moreover have "bit (unat w) = bit w"
    by (rule ext) (simp add: bit_unsigned_iff)
  ultimately show ?thesis
    using horner_sum_bit_eq_take_bit [of "unat w" n] by simp
qed

lemma upt_6: "[0..<6] = [0, 1, 2, 3, 4, 5]" by (simp add: upt_rec)

lemma sdiv_smod_nonneg:
  fixes k :: int
  assumes "0 \<le> k"
  shows "k sdiv 12 = k div 12" and "k smod 12 = k mod 12"
  using assms by (simp_all add: signed_divide_int_def signed_modulo_int_def sgn_if)

lemma c_mod_12:
  assumes "0 \<le> sint h"
  shows "uint (c_mod h 12) = sint h mod 12"
proof -
  have "sint h mod 12 < 12" by simp
  then have "sint h mod 12 < 2 ^ 32" by (rule less_trans) simp
  then have "take_bit 32 (sint h mod 12) = sint h mod 12"
    by (simp add: take_bit_int_eq_self)
  then show ?thesis
    using assms by (simp add: c_mod_def sdiv_smod_nonneg uint_word_of_int_eq)
qed

lemma c_div_12:
  assumes "0 \<le> sint h" "sint h \<le> 23"
  shows "uint (c_div h 12) = sint h div 12"
proof -
  have "sint h div 12 < 2 ^ 32" using assms by simp
  moreover have "0 \<le> sint h div 12" using assms by simp
  ultimately have "take_bit 32 (sint h div 12) = sint h div 12"
    by (simp add: take_bit_int_eq_self)
  then show ?thesis
    using assms by (simp add: c_div_def sdiv_smod_nonneg uint_word_of_int_eq)
qed

lemma tu_hour_24:
  assumes "0 \<le> sint (tm_hour t)" "sint (tm_hour t) \<le> 23"
  shows "uint (tu_hour t True) = sint (tm_hour t)"
proof -
  have "uint (tm_hour t) = sint (tm_hour t)"
    using assms(1) by (rule sint_range_uint)
  then show ?thesis
    using assms ucast16_small [of "tm_hour t"] by (simp add: tu_hour_def)
qed

lemma tu_hour_12:
  assumes "0 \<le> sint (tm_hour t)"
  shows "uint (tu_hour t False) =
           (if sint (tm_hour t) mod 12 = 0 then 12 else sint (tm_hour t) mod 12)"
proof -
  let ?r = "c_mod (tm_hour t) 12"
  have r: "uint ?r = sint (tm_hour t) mod 12"
    using assms by (rule c_mod_12)
  have "sint (tm_hour t) mod 12 < 12" by simp
  then have "uint ?r < 65536" using r by simp
  then have u: "uint (ucast ?r :: ushort) = sint (tm_hour t) mod 12"
    using r ucast16_small [of ?r] by simp
  have z: "(0 = (ucast (ucast ?r :: ushort) :: cint)) = (sint (tm_hour t) mod 12 = 0)"
    using u ucast32_of_16 [of "ucast ?r :: ushort"] by (metis uint_0_iff)
  show ?thesis
    using u z by (simp add: tu_hour_def Let_def)
qed

lemma tu_pm_eq:
  assumes "0 \<le> sint (tm_hour t)" "sint (tm_hour t) \<le> 23"
  shows "tu_pm t = (12 \<le> sint (tm_hour t))"
proof -
  have "(c_div (tm_hour t) 12 \<noteq> 0) = (sint (tm_hour t) div 12 \<noteq> 0)"
    using c_div_12 [OF assms] by (metis uint_0_iff)
  also have "\<dots> = (12 \<le> sint (tm_hour t))"
    using assms by presburger
  finally show ?thesis by (simp add: tu_pm_def c_bool_def)
qed

subsection \<open>The weekday local\<close>

lemma tu_week_day_eq:
  assumes "0 \<le> sint (tm_wday t)" "sint (tm_wday t) \<le> 6"
  shows "uint (tu_week_day t) = (if sint (tm_wday t) = 0 then 7 else sint (tm_wday t))"
proof -
  have u: "uint (tm_wday t) = sint (tm_wday t)"
    using assms(1) by (rule sint_range_uint)
  show ?thesis
  proof (cases "tm_wday t = 0")
    case True
    then show ?thesis by (simp add: tu_week_day_def)
  next
    case False
    then have "sint (tm_wday t) \<noteq> 0"
      by (simp add: signed_eq_0_iff)
    moreover have "uint (ucast (tm_wday t) :: ushort) = uint (tm_wday t)"
      using assms u by (intro ucast16_small) simp
    ultimately show ?thesis
      using False u by (simp add: tu_week_day_def)
  qed
qed

subsection \<open>The coordinate mapper on words\<close>

lemma ucast_word_of_int_16:
  "(ucast (word_of_int k :: cint) :: int16) = word_of_int k"
  by (rule bit_word_eqI) (simp add: bit_ucast_iff bit_word_of_int_iff)

lemma sint16_small:
  assumes "- 32768 \<le> k" "k < 32768"
  shows "sint (word_of_int k :: int16) = k"
  using assms by (simp add: sint_sbintrunc' signed_take_bit_int_eq_self)

lemma half_kSpace: "c_div kSpace 2 = 2"
  by (simp add: c_div_def k_defs signed_divide_int_def)

lemma getCenter_word_of_int:
  "getCenter col row =
     \<lparr>gx = word_of_int (28 * sint col + 16), gy = word_of_int (28 * sint row + 14)\<rparr>"
proof -
  have "kDotRadius * (1 + 2 * col) + kSpace * col + kSpace = 28 * col + 16"
    by (simp add: k_defs algebra_simps)
  also have "\<dots> = word_of_int (28 * sint col + 16)"
    by simp
  finally have x: "ucast (kDotRadius * (1 + 2 * col) + kSpace * col + kSpace)
      = (word_of_int (28 * sint col + 16) :: int16)"
    by (simp only: ucast_word_of_int_16)
  have "kDotRadius * (1 + 2 * row) + kSpace * row + c_div kSpace 2 = 28 * row + 14"
    by (simp add: half_kSpace) (simp add: k_defs algebra_simps)
  also have "\<dots> = word_of_int (28 * sint row + 14)"
    by simp
  finally have y: "ucast (kDotRadius * (1 + 2 * row) + kSpace * row + c_div kSpace 2)
      = (word_of_int (28 * sint row + 14) :: int16)"
    by (simp only: ucast_word_of_int_16)
  show ?thesis
    by (simp only: getCenter_def x y)
qed

lemma getCenter_in_range:
  assumes "0 \<le> sint col" "sint col \<le> 1169" "0 \<le> sint row" "sint row \<le> 1169"
  shows "sint (gx (getCenter col row)) = 28 * sint col + 16"
    and "sint (gy (getCenter col row)) = 28 * sint row + 14"
proof -
  have "sint (gx (getCenter col row)) = sint (word_of_int (28 * sint col + 16) :: int16)"
    by (simp only: getCenter_word_of_int GPoint.select_convs)
  also have "\<dots> = 28 * sint col + 16"
    using assms by (intro sint16_small) simp_all
  finally show "sint (gx (getCenter col row)) = 28 * sint col + 16" .
  have "sint (gy (getCenter col row)) = sint (word_of_int (28 * sint row + 14) :: int16)"
    by (simp only: getCenter_word_of_int GPoint.select_convs)
  also have "\<dots> = 28 * sint row + 14"
    using assms by (intro sint16_small) simp_all
  finally show "sint (gy (getCenter col row)) = 28 * sint row + 14" .
qed


lemma sint_neq:
  fixes a b :: cint
  shows "a \<noteq> b \<Longrightarrow> sint a \<noteq> sint b"
  using word_eq_iff_signed [of a b] by simp

subsection \<open>Coordinates beyond the signed 16-bit range\<close>

lemma dvd_28_small:
  fixes d :: int
  assumes "65536 dvd 28 * d" "- 16383 \<le> d" "d \<le> 16383"
  shows "d = 0"
proof -
  have "4 * 16384 dvd 4 * (7 * d)"
    using assms(1) by simp
  then have "16384 dvd 7 * d"
    by (simp only: dvd_mult_cancel_left) simp
  then have "16384 dvd 11703 * (7 * d)"
    by (rule dvd_mult)
  moreover have "(16384 :: int) dvd 16384 * (5 * d)"
    by (rule dvd_triv_left)
  ultimately have "16384 dvd 11703 * (7 * d) - 16384 * (5 * d)"
    by (rule dvd_diff)
  moreover have "11703 * (7 * d) - 16384 * (5 * d) = d"
    by simp
  ultimately have "16384 dvd d"
    by simp
  show ?thesis
  proof (rule ccontr)
    assume "d \<noteq> 0"
    then have "\<bar>16384 :: int\<bar> \<le> \<bar>d\<bar>"
      using \<open>16384 dvd d\<close> by (rule dvd_imp_le_int)
    then show False
      using assms(2,3) by simp
  qed
qed

lemma word16_of_int_eq:
  "(word_of_int a :: int16) = word_of_int b \<longleftrightarrow> 65536 dvd a - b"
  by (simp add: word_of_int_eq_iff take_bit_eq_mod mod_eq_dvd_iff)

lemma coordinate_distinct:
  fixes c1 c2 :: cint
  assumes "0 \<le> sint c1" "sint c1 \<le> 16383" "0 \<le> sint c2" "sint c2 \<le> 16383" "c1 \<noteq> c2"
  shows "(word_of_int (28 * sint c1 + k) :: int16) \<noteq> word_of_int (28 * sint c2 + k)"
proof
  assume "(word_of_int (28 * sint c1 + k) :: int16) = word_of_int (28 * sint c2 + k)"
  then have "65536 dvd (28 * sint c1 + k) - (28 * sint c2 + k)"
    by (simp only: word16_of_int_eq)
  moreover have "(28 * sint c1 + k) - (28 * sint c2 + k) = 28 * (sint c1 - sint c2)"
    by simp
  ultimately have "65536 dvd 28 * (sint c1 - sint c2)"
    by simp
  then have "sint c1 - sint c2 = 0"
    using assms(1-4) by (intro dvd_28_small) simp_all
  then show False
    using sint_neq [OF assms(5)] by simp
qed

lemma sint16_upper:
  assumes "32768 \<le> k" "k < 65536"
  shows "sint (word_of_int k :: int16) = k - 65536"
proof -
  have "(word_of_int k :: int16) = word_of_int (k - 65536)"
    by (simp only: word16_of_int_eq) simp
  moreover have "sint (word_of_int (k - 65536) :: int16) = k - 65536"
    using assms by (intro sint16_small) simp_all
  ultimately show ?thesis
    by (simp only:)
qed

lemma sint16_wrapped:
  assumes "0 \<le> k" "k < 65536"
  shows "sint (word_of_int k :: int16) = (if k < 32768 then k else k - 65536)"
  using assms sint16_small [of k] sint16_upper [of k] by simp

lemma coordinate_separated:
  fixes c1 c2 :: cint
  assumes "0 \<le> sint c1" "sint c1 \<le> 2339" "0 \<le> sint c2" "sint c2 \<le> 2339" "c1 \<noteq> c2"
    and "0 \<le> k" "k \<le> 16"
  shows "28 \<le> \<bar>sint (word_of_int (28 * sint c1 + k) :: int16)
               - sint (word_of_int (28 * sint c2 + k) :: int16)\<bar>"
proof -
  have "sint c1 \<noteq> sint c2"
    using assms(5) by (rule sint_neq)
  moreover have "sint (word_of_int (28 * sint c1 + k) :: int16)
      = (if 28 * sint c1 + k < 32768 then 28 * sint c1 + k else 28 * sint c1 + k - 65536)"
    using assms by (intro sint16_wrapped) simp_all
  moreover have "sint (word_of_int (28 * sint c2 + k) :: int16)
      = (if 28 * sint c2 + k < 32768 then 28 * sint c2 + k else 28 * sint c2 + k - 65536)"
    using assms by (intro sint16_wrapped) simp_all
  ultimately show ?thesis
    using assms(1-4,6,7) by (simp split: if_splits)
qed

subsection \<open>The indicators drawn by the time encoder\<close>

lemma grid_centers:
  "getCenter c r = getCenter c' r' \<longleftrightarrow>
     (word_of_int (28 * sint c + 16) :: int16) = word_of_int (28 * sint c' + 16)
     \<and> (word_of_int (28 * sint r + 14) :: int16) = word_of_int (28 * sint r' + 14)"
  by (simp only: getCenter_word_of_int GPoint.simps) auto

lemma c_bool_bool_int: "c_bool (bool_int b) = b"
  by (simp add: c_bool_def bool_int_def)

lemma time_update_leds:
  "led_on (time_update t m ctx) kSecondColumn 0 = bit (tm_sec t) 0"
  "led_on (time_update t m ctx) kSecondColumn 1 = bit (tm_sec t) 1"
  "led_on (time_update t m ctx) kSecondColumn 2 = bit (tm_sec t) 2"
  "led_on (time_update t m ctx) kSecondColumn 3 = bit (tm_sec t) 3"
  "led_on (time_update t m ctx) kSecondColumn 4 = bit (tm_sec t) 4"
  "led_on (time_update t m ctx) kSecondColumn 5 = bit (tm_sec t) 5"
  "led_on (time_update t m ctx) kMinuteColumn 0 = bit (tm_min t) 0"
  "led_on (time_update t m ctx) kMinuteColumn 1 = bit (tm_min t) 1"
  "led_on (time_update t m ctx) kMinuteColumn 2 = bit (tm_min t) 2"
  "led_on (time_update t m ctx) kMinuteColumn 3 = bit (tm_min t) 3"
  "led_on (time_update t m ctx) kMinuteColumn 4 = bit (tm_min t) 4"
  "led_on (time_update t m ctx) kMinuteColumn 5 = bit (tm_min t) 5"
  "led_on (time_update t m ctx) kHourColumn 0 = bit (ucast (tu_hour t m) :: cint) 0"
  "led_on (time_update t m ctx) kHourColumn 1 = bit (ucast (tu_hour t m) :: cint) 1"
  "led_on (time_update t m ctx) kHourColumn 2 = bit (ucast (tu_hour t m) :: cint) 2"
  "led_on (time_update t m ctx) kHourColumn 3 = bit (ucast (tu_hour t m) :: cint) 3"
  "led_on (time_update t m ctx) kHourColumn 4 =
     (if m then bit (ucast (tu_hour t m) :: cint) 4 else tu_pm t)"
  "led_on (time_update t m ctx) kHourColumn kWeekDayLine = bit (ucast (tu_week_day t) :: cint) 0"
  "led_on (time_update t m ctx) kDayOfMonthColumn 0 = bit (tm_mday t) 0"
  "led_on (time_update t m ctx) kDayOfMonthColumn 1 = bit (tm_mday t) 1"
  "led_on (time_update t m ctx) kDayOfMonthColumn 2 = bit (tm_mday t) 2"
  "led_on (time_update t m ctx) kDayOfMonthColumn 3 = bit (tm_mday t) 3"
  "led_on (time_update t m ctx) kDayOfMonthColumn 4 = bit (tm_mday t) 4"
  "led_on (time_update t m ctx) kDayOfMonthColumn kWeekDayLine = bit (ucast (tu_week_day t) :: cint) 1"
  "led_on (time_update t m ctx) kMonthColumn 0 = bit (ucast (tu_month t) :: cint) 0"
  "led_on (time_update t m ctx) kMonthColumn 1 = bit (ucast (tu_month t) :: cint) 1"
  "led_on (time_update t m ctx) kMonthColumn 2 = bit (ucast (tu_month t) :: cint) 2"
  "led_on (time_update t m ctx) kMonthColumn 3 = bit (ucast (tu_month t) :: cint) 3"
  "led_on (time_update t m ctx) kMonthColumn kWeekDayLine = bit (ucast (tu_week_day t) :: cint) 2"
  by (simp_all add: time_update_def Let_def led_on_toggle_led grid_centers k_defs
      c_bool_AND c_bool_bool_int)


lemma read_column_bits:
  fixes w :: cint
  assumes "uint w < 2 ^ n"
    and "\<And>r. r < n \<Longrightarrow> led_on ctx col (of_nat r) = bit w r"
  shows "read_column ctx col [0..<n] = unat w"
proof -
  have "read_column ctx col [0..<n] = (\<Sum>r = 0..<n. if led_on ctx col (of_nat r) then 2 ^ r else 0)"
    by (simp add: read_column_def interv_sum_list_conv_sum_set_nat)
  also have "\<dots> = (\<Sum>r = 0..<n. of_bool (bit w r) * 2 ^ r)"
    by (rule sum.cong) (simp_all add: assms(2))
  also have "\<dots> = horner_sum of_bool 2 (map (bit w) [0..<n])"
    by (simp add: horner_sum_eq_sum)
  also have "\<dots> = unat w"
    using assms(1) by (rule bits_sum)
  finally show ?thesis .
qed

lemma upt_345:
  "[0..<3] = [0, 1, 2]" "[0..<4] = [0, 1, 2, 3]" "[0..<5] = [0, 1, 2, 3, 4]"
  by (simp_all add: upt_rec)

lemma less_6_cases: "r < 6 \<Longrightarrow> r = 0 \<or> r = 1 \<or> r = 2 \<or> r = 3 \<or> r = 4 \<or> r = (5::nat)"
  by arith

lemma less_4_cases: "r < 4 \<Longrightarrow> r = 0 \<or> r = 1 \<or> r = 2 \<or> r = (3::nat)"
  by arith

lemma less_5_cases: "r < 5 \<Longrightarrow> r = 0 \<or> r = 1 \<or> r = 2 \<or> r = 3 \<or> r = (4::nat)"
  by arith

lemma read_seconds:
  assumes "0 \<le> sint (tm_sec t)" "sint (tm_sec t) \<le> 59"
  shows "int (read_column (time_update t m ctx) kSecondColumn [0, 1, 2, 3, 4, 5]) = sint (tm_sec t)"
proof -
  have u: "uint (tm_sec t) = sint (tm_sec t)"
    using assms(1) by (rule sint_range_uint)
  then have "uint (tm_sec t) < 2 ^ 6"
    using assms(2) by simp
  then have "read_column (time_update t m ctx) kSecondColumn [0..<6] = unat (tm_sec t)"
  proof (rule read_column_bits)
    fix r :: nat
    assume "r < 6"
    then show "led_on (time_update t m ctx) kSecondColumn (of_nat r) = bit (tm_sec t) r"
      using time_update_leds(1-6) [of t m ctx] by (auto dest!: less_6_cases)
  qed
  then show ?thesis
    using u by (simp add: upt_6)
qed

lemma read_minutes:
  assumes "0 \<le> sint (tm_min t)" "sint (tm_min t) \<le> 59"
  shows "int (read_column (time_update t m ctx) kMinuteColumn [0, 1, 2, 3, 4, 5]) = sint (tm_min t)"
proof -
  have u: "uint (tm_min t) = sint (tm_min t)"
    using assms(1) by (rule sint_range_uint)
  then have "uint (tm_min t) < 2 ^ 6"
    using assms(2) by simp
  then have "read_column (time_update t m ctx) kMinuteColumn [0..<6] = unat (tm_min t)"
  proof (rule read_column_bits)
    fix r :: nat
    assume "r < 6"
    then show "led_on (time_update t m ctx) kMinuteColumn (of_nat r) = bit (tm_min t) r"
      using time_update_leds(7-12) [of t m ctx] by (auto dest!: less_6_cases)
  qed
  then show ?thesis
    using u by (simp add: upt_6)
qed

lemma read_mday:
  assumes "1 \<le> sint (tm_mday t)" "sint (tm_mday t) \<le> 31"
  shows "int (read_column (time_update t m ctx) kDayOfMonthColumn [0, 1, 2, 3, 4]) = sint (tm_mday t)"
proof -
  have u: "uint (tm_mday t) = sint (tm_mday t)"
    using assms(1) by (intro sint_range_uint) simp
  then have "uint (tm_mday t) < 2 ^ 5"
    using assms(2) by simp
  then have "read_column (time_update t m ctx) kDayOfMonthColumn [0..<5] = unat (tm_mday t)"
  proof (rule read_column_bits)
    fix r :: nat
    assume "r < 5"
    then show "led_on (time_update t m ctx) kDayOfMonthColumn (of_nat r) = bit (tm_mday t) r"
      using time_update_leds(19-23) [of t m ctx] by (auto dest!: less_5_cases)
  qed
  then show ?thesis
    using u by (simp add: upt_345)
qed

lemma tu_month_eq:
  assumes "0 \<le> sint (tm_mon t)" "sint (tm_mon t) \<le> 11"
  shows "uint (tu_month t) = sint (tm_mon t) + 1"
proof -
  have "tm_mon t + 1 = word_of_int (sint (tm_mon t) + 1)"
    by simp
  then have "tu_month t = word_of_int (sint (tm_mon t) + 1)"
    by (simp only: tu_month_def ucast_word_of_int_16)
  moreover have "take_bit 16 (sint (tm_mon t) + 1) = sint (tm_mon t) + 1"
    using assms by (intro take_bit_int_eq_self) simp_all
  ultimately show ?thesis
    by (simp only: uint_word_of_int_eq) simp
qed

lemma read_month:
  assumes "0 \<le> sint (tm_mon t)" "sint (tm_mon t) \<le> 11"
  shows "int (read_column (time_update t m ctx) kMonthColumn [0, 1, 2, 3]) = uint (tu_month t)"
proof -
  let ?w = "ucast (tu_month t) :: cint"
  have u: "uint ?w = uint (tu_month t)"
    by (rule ucast32_of_16)
  then have "uint ?w < 2 ^ 4"
    using assms tu_month_eq [OF assms] by simp
  then have "read_column (time_update t m ctx) kMonthColumn [0..<4] = unat ?w"
  proof (rule read_column_bits)
    fix r :: nat
    assume "r < 4"
    then show "led_on (time_update t m ctx) kMonthColumn (of_nat r) = bit ?w r"
      using time_update_leds(25-28) [of t m ctx] by (auto dest!: less_4_cases)
  qed
  then show ?thesis
    using u by (simp add: upt_345)
qed

lemma read_hour_24:
  assumes "0 \<le> sint (tm_hour t)" "sint (tm_hour t) \<le> 23"
  shows "int (read_column (time_update t True ctx) kHourColumn [0, 1, 2, 3, 4]) = uint (tu_hour t True)"
proof -
  let ?w = "ucast (tu_hour t True) :: cint"
  have u: "uint ?w = uint (tu_hour t True)"
    by (rule ucast32_of_16)
  then have "uint ?w < 2 ^ 5"
    using assms tu_hour_24 [OF assms] by simp
  then have "read_column (time_update t True ctx) kHourColumn [0..<5] = unat ?w"
  proof (rule read_column_bits)
    fix r :: nat
    assume "r < 5"
    then show "led_on (time_update t True ctx) kHourColumn (of_nat r) = bit ?w r"
      using time_update_leds(13-17) [of t True ctx] by (auto dest!: less_5_cases)
  qed
  then show ?thesis
    using u by (simp add: upt_345)
qed

lemma read_hour_12:
  assumes "0 \<le> sint (tm_hour t)"
  shows "int (read_column (time_update t False ctx) kHourColumn [0, 1, 2, 3]) = uint (tu_hour t False)"
proof -
  let ?w = "ucast (tu_hour t False) :: cint"
  have u: "uint ?w = uint (tu_hour t False)"
    by (rule ucast32_of_16)
  have "sint (tm_hour t) mod 12 < 16"
    using pos_mod_bound [of 12 "sint (tm_hour t)"] by linarith
  then have "uint ?w < 2 ^ 4"
    using u tu_hour_12 [OF assms] by simp
  then have "read_column (time_update t False ctx) kHourColumn [0..<4] = unat ?w"
  proof (rule read_column_bits)
    fix r :: nat
    assume "r < 4"
    then show "led_on (time_update t False ctx) kHourColumn (of_nat r) = bit ?w r"
      using time_update_leds(13-16) [of t False ctx] by (auto dest!: less_4_cases)
  qed
  then show ?thesis
    using u by (simp add: upt_345)
qed

lemma read_weekday_bits:
  assumes "uint (tu_week_day t) \<le> 7"
  shows "int (read_weekday (time_update t m ctx)) = uint (tu_week_day t)"
proof -
  let ?w = "ucast (tu_week_day t) :: cint"
  have u: "uint ?w = uint (tu_week_day t)"
    by (rule ucast32_of_16)
  then have "uint ?w < 2 ^ 3"
    using assms by simp
  then have "horner_sum of_bool 2 (map (bit ?w) [0..<3]) = unat ?w"
    by (rule bits_sum)
  then have "of_bool (bit ?w 0) + 2 * of_bool (bit ?w 1) + 4 * of_bool (bit ?w 2) = unat ?w"
    by (simp only: upt_345) simp
  moreover have "read_weekday (time_update t m ctx)
      = of_bool (bit ?w 0) + 2 * of_bool (bit ?w 1) + 4 * of_bool (bit ?w 2)"
    by (simp add: read_weekday_def time_update_leds)
  ultimately show ?thesis
    using u by simp
qed

lemma bit_ucast_ushort:
  fixes h :: ushort
  shows "r < 16 \<Longrightarrow> bit (ucast h :: cint) r = bit h r"
  by (simp add: bit_ucast_iff)

lemma not_connected_cell:
  assumes "0 \<le> sint col" "sint col \<le> 1169" "0 \<le> sint row" "sint row \<le> 1169"
    and "(col, row) \<noteq> (0, 4)"
  shows "getCenter col row \<noteq> getCenter 0 4"
proof
  assume eq: "getCenter col row = getCenter 0 4"
  have "sint (gx (getCenter 0 4)) = 16" "sint (gy (getCenter 0 4)) = 126"
    by (simp_all add: getCenter_word_of_int)
  with eq getCenter_in_range [OF assms(1-4)] have "sint col = 0" "sint row = 4"
    by simp_all
  then have "col = 0" "row = 4"
    using sint_neq [of col 0] sint_neq [of row 4] by auto
  with assms(5) show False by simp
qed

subsection \<open>Evaluation of the locals at a concrete time\<close>

lemmas eval_defs = new_years_day_def new_years_eve_def tu_hour_def tu_pm_def tu_week_day_def
  tu_month_def c_mod_def c_div_def c_bool_def signed_modulo_int_def signed_divide_int_def

section \<open>Properties\<close>

text \<open>
  C1 (round-trip of the time encoding), amended. As stated the claim reads the hour from
  rows 0 to 4 of the hour column, and in 12-hour mode row 4 holds the AM/PM flag: at 13
  o'clock the displayed hour is 1 and rows 0 to 4 read 17. For every second and minute in
  0 to 59, hour in 0 to 23, day of the month in 1 to 31 and month in 1 to 12
  (\<open>tm_mon\<close> in 0 to 11), reading row \<open>r\<close> as bit \<open>r\<close> gives back the seconds from rows 0 to 5
  of the seconds column, the minutes from rows 0 to 5 of the minutes column, the
  displayed hour from rows 0 to 4 of the hour column in 24-hour mode and from rows 0 to 3
  in 12-hour mode, the day from rows 0 to 4 of the day-of-month column, and the month from
  rows 0 to 3 of the month column.
\<close>

theorem time_roundtrip:
  assumes "0 \<le> sint (tm_sec t)" "sint (tm_sec t) \<le> 59"
    and "0 \<le> sint (tm_min t)" "sint (tm_min t) \<le> 59"
    and "0 \<le> sint (tm_hour t)" "sint (tm_hour t) \<le> 23"
    and "1 \<le> sint (tm_mday t)" "sint (tm_mday t) \<le> 31"
    and "0 \<le> sint (tm_mon t)" "sint (tm_mon t) \<le> 11"
  shows "int (read_column (time_update t is_24h_style ctx) kSecondColumn [0, 1, 2, 3, 4, 5])
           = sint (tm_sec t)
       \<and> int (read_column (time_update t is_24h_style ctx) kMinuteColumn [0, 1, 2, 3, 4, 5])
           = sint (tm_min t)
       \<and> int (read_column (time_update t is_24h_style ctx) kHourColumn
              (if is_24h_style then [0, 1, 2, 3, 4] else [0, 1, 2, 3]))
           = uint (tu_hour t is_24h_style)
       \<and> int (read_column (time_update t is_24h_style ctx) kDayOfMonthColumn [0, 1, 2, 3, 4])
           = sint (tm_mday t)
       \<and> int (read_column (time_update t is_24h_style ctx) kMonthColumn [0, 1, 2, 3])
           = uint (tu_month t)
       \<and> uint (tu_month t) = sint (tm_mon t) + 1"
proof -
  have "int (read_column (time_update t is_24h_style ctx) kHourColumn
              (if is_24h_style then [0, 1, 2, 3, 4] else [0, 1, 2, 3]))
           = uint (tu_hour t is_24h_style)"
    using read_hour_24 [OF assms(5,6)] read_hour_12 [OF assms(5)] by simp
  then show ?thesis
    using read_seconds [OF assms(1,2)] read_minutes [OF assms(3,4)]
      read_mday [OF assms(7,8)] read_month [OF assms(9,10)] tu_month_eq [OF assms(9,10)]
    by simp
qed

theorem time_roundtrip_witness:
  "0 \<le> sint (tm_sec new_years_day) \<and> sint (tm_sec new_years_day) \<le> 59
   \<and> 0 \<le> sint (tm_min new_years_day) \<and> sint (tm_min new_years_day) \<le> 59
   \<and> 0 \<le> sint (tm_hour new_years_day) \<and> sint (tm_hour new_years_day) \<le> 23
   \<and> 1 \<le> sint (tm_mday new_years_day) \<and> sint (tm_mday new_years_day) \<le> 31
   \<and> 0 \<le> sint (tm_mon new_years_day) \<and> sint (tm_mon new_years_day) \<le> 11
   \<and> read_column (time_update new_years_day False blank) kSecondColumn [0, 1, 2, 3, 4, 5] = 9
   \<and> read_column (time_update new_years_day False blank) kMinuteColumn [0, 1, 2, 3, 4, 5] = 5
   \<and> read_column (time_update new_years_day False blank) kHourColumn [0, 1, 2, 3] = 1
   \<and> read_column (time_update new_years_day False blank) kDayOfMonthColumn [0, 1, 2, 3, 4] = 1
   \<and> read_column (time_update new_years_day False blank) kMonthColumn [0, 1, 2, 3] = 1"
  using time_roundtrip [of new_years_day False blank] by (simp add: eval_defs)

theorem time_roundtrip_counterexample:
  "sint (tm_hour new_years_day) = 13
   \<and> uint (tu_hour new_years_day False) = 1
   \<and> read_column (time_update new_years_day False blank) kHourColumn [0, 1, 2, 3, 4] = 17"
  by (simp add: read_column_def time_update_leds) (simp add: eval_defs)

text \<open>
  C2 (weekday round-trip). Whenever the local \<open>week_day\<close> is in 1 to 7, the three
  indicators of the sixth row, read as bit 0 on the hour column, bit 1 on the day-of-month
  column and bit 2 on the month column, give back \<open>week_day\<close>.
\<close>

theorem weekday_roundtrip:
  assumes "1 \<le> uint (tu_week_day t)" "uint (tu_week_day t) \<le> 7"
  shows "int (read_weekday (time_update t is_24h_style ctx)) = uint (tu_week_day t)"
  using assms(2) by (rule read_weekday_bits)

theorem weekday_roundtrip_witness:
  "1 \<le> uint (tu_week_day new_years_eve) \<and> uint (tu_week_day new_years_eve) \<le> 7
   \<and> uint (tu_week_day new_years_eve) = 6
   \<and> read_weekday (time_update new_years_eve True blank) = 6"
  using weekday_roundtrip [of new_years_eve True blank]
  by (simp add: new_years_eve_def tu_week_day_def)

text \<open>
  C3 (hour normalization). For every hour in 0 to 23: in 24-hour mode the displayed hour
  is the hour itself; in 12-hour mode it is the hour modulo 12 with 0 shown as 12, hence
  in 1 to 12; and the pm flag holds exactly when the hour is at least 12.
\<close>

theorem hour_normalization:
  assumes "0 \<le> sint (tm_hour t)" "sint (tm_hour t) \<le> 23"
  shows "uint (tu_hour t True) = sint (tm_hour t)
       \<and> uint (tu_hour t False) =
           (if sint (tm_hour t) mod 12 = 0 then 12 else sint (tm_hour t) mod 12)
       \<and> 1 \<le> uint (tu_hour t False) \<and> uint (tu_hour t False) \<le> 12
       \<and> tu_pm t = (12 \<le> sint (tm_hour t))"
proof -
  have "sint (tm_hour t) mod 12 < 12" "0 \<le> sint (tm_hour t) mod 12" by simp_all
  then show ?thesis
    using tu_hour_24 [OF assms] tu_hour_12 [OF assms(1)] tu_pm_eq [OF assms] by auto
qed

theorem hour_normalization_witness:
  "0 \<le> sint (tm_hour new_years_day) \<and> sint (tm_hour new_years_day) \<le> 23
   \<and> uint (tu_hour new_years_day True) = 13
   \<and> uint (tu_hour new_years_day False) = 1
   \<and> tu_pm new_years_day"
  using hour_normalization [of new_years_day] by (simp add: new_years_day_def)

text \<open>
  C4 (weekday normalization). For every weekday in 0 to 6 (0 is Sunday), the local
  \<open>week_day\<close> is 7 exactly when the weekday is 0, is the weekday itself otherwise, and lies
  in 1 to 7.
\<close>

theorem weekday_normalization:
  assumes "0 \<le> sint (tm_wday t)" "sint (tm_wday t) \<le> 6"
  shows "(uint (tu_week_day t) = 7 \<longleftrightarrow> sint (tm_wday t) = 0)
       \<and> (sint (tm_wday t) \<noteq> 0 \<longrightarrow> uint (tu_week_day t) = sint (tm_wday t))
       \<and> 1 \<le> uint (tu_week_day t) \<and> uint (tu_week_day t) \<le> 7"
  using assms tu_week_day_eq [OF assms] by auto

theorem weekday_normalization_witness:
  "0 \<le> sint (tm_wday new_years_day) \<and> sint (tm_wday new_years_day) \<le> 6
   \<and> sint (tm_wday new_years_day) = 0 \<and> uint (tu_week_day new_years_day) = 7"
  using weekday_normalization [of new_years_day] by (simp add: new_years_day_def)

text \<open>
  C5 (coordinate mapper), amended. The claim is stated for every non-negative column and
  row, but the coordinates of a \<^verbatim>\<open>GPoint\<close> are 16-bit: from column or row 1170 on the
  value of the formula exceeds 32767 and the stored coordinate differs. For every column and
  row in 0 to 1169 the centre is
  \<open>(radius * (1 + 2 * col) + spacing * col + spacing,
     radius * (1 + 2 * row) + spacing * row + spacing / 2)\<close> with radius 12 and spacing 4;
  \<open>getCenter 0 0 = (16, 14)\<close>; and on that range x increases strictly with the column and
  y with the row.
\<close>

theorem getCenter_formula:
  assumes "0 \<le> sint col" "sint col \<le> 1169" "0 \<le> sint row" "sint row \<le> 1169"
    and "0 \<le> sint col'" "sint col' \<le> 1169" "0 \<le> sint row'" "sint row' \<le> 1169"
  shows "sint (gx (getCenter col row)) =
           sint kDotRadius * (1 + 2 * sint col) + sint kSpace * sint col + sint kSpace
       \<and> sint (gy (getCenter col row)) =
           sint kDotRadius * (1 + 2 * sint row) + sint kSpace * sint row + sint kSpace div 2
       \<and> getCenter 0 0 = \<lparr>gx = 16, gy = 14\<rparr>
       \<and> (sint col < sint col' \<longrightarrow>
            sint (gx (getCenter col row)) < sint (gx (getCenter col' row')))
       \<and> (sint row < sint row' \<longrightarrow>
            sint (gy (getCenter col row)) < sint (gy (getCenter col' row')))"
proof -
  have "getCenter 0 0 = \<lparr>gx = 16, gy = 14\<rparr>"
    by (simp add: getCenter_word_of_int)
  then show ?thesis
    using getCenter_in_range [OF assms(1-4)] getCenter_in_range [OF assms(5-8)]
    by (simp add: k_defs)
qed

theorem getCenter_formula_witness:
  "0 \<le> sint (4 :: cint) \<and> sint (4 :: cint) \<le> 1169 \<and> 0 \<le> sint (5 :: cint) \<and> sint (5 :: cint) \<le> 1169
   \<and> sint (gx (getCenter 2 3)) = 72 \<and> sint (gy (getCenter 2 3)) = 98
   \<and> sint (gx (getCenter 2 3)) < sint (gx (getCenter 4 5))
   \<and> sint (gy (getCenter 2 3)) < sint (gy (getCenter 4 5))"
  using getCenter_formula [of 2 3 4 5] by (simp add: k_defs)

theorem getCenter_formula_counterexample:
  "0 \<le> sint (1170 :: cint)
   \<and> sint (gx (getCenter 1170 0)) = - 32760
   \<and> sint kDotRadius * (1 + 2 * sint (1170 :: cint)) + sint kSpace * sint (1170 :: cint)
       + sint kSpace = 32776
   \<and> sint (gx (getCenter 1169 0)) = 32748"
  by (simp add: getCenter_word_of_int k_defs)

text \<open>
  C6 (hour column). For every hour in 0 to 23, row 4 of the hour column shows bit 4 of the
  displayed hour in 24-hour mode and the AM/PM flag (on iff the hour is at least 12) in
  12-hour mode; rows 0 to 3 show bits 0 to 3 of the displayed hour, and row 5 shows bit 0
  of \<open>week_day\<close>.
\<close>

theorem hour_column:
  assumes "0 \<le> sint (tm_hour t)" "sint (tm_hour t) \<le> 23"
  shows "led_on (time_update t True ctx) kHourColumn 4 = bit (tu_hour t True) 4
       \<and> led_on (time_update t False ctx) kHourColumn 4 = (12 \<le> sint (tm_hour t))
       \<and> led_on (time_update t is_24h_style ctx) kHourColumn 0 = bit (tu_hour t is_24h_style) 0
       \<and> led_on (time_update t is_24h_style ctx) kHourColumn 1 = bit (tu_hour t is_24h_style) 1
       \<and> led_on (time_update t is_24h_style ctx) kHourColumn 2 = bit (tu_hour t is_24h_style) 2
       \<and> led_on (time_update t is_24h_style ctx) kHourColumn 3 = bit (tu_hour t is_24h_style) 3
       \<and> led_on (time_update t is_24h_style ctx) kHourColumn 5 = bit (tu_week_day t) 0"
  using tu_pm_eq [OF assms] time_update_leds(18) [of t is_24h_style ctx]
  by (simp add: time_update_leds(13-17) bit_ucast_ushort kWeekDayLine_def)

theorem hour_column_witness:
  "0 \<le> sint (tm_hour new_years_day) \<and> sint (tm_hour new_years_day) \<le> 23
   \<and> led_on (time_update new_years_day False blank) kHourColumn 4
   \<and> led_on (time_update new_years_day False blank) kHourColumn 0
   \<and> \<not> led_on (time_update new_years_day False blank) kHourColumn 1
   \<and> led_on (time_update new_years_day False blank) kHourColumn 5"
  using hour_column [where t = new_years_day and ctx = blank and is_24h_style = False]
  by (simp add: eval_defs)

text \<open>
  C7 (connection rendering). A redraw of the connection layer draws exactly one disc, at
  the centre of column 0, row 4, white iff \<open>s_connected_current\<close> holds, which is the last
  boolean that \<^verbatim>\<open>handle_connected\<close> received; every other indicator (column and row in
  0 to 1169, which covers the grid) reads as before the redraw.
\<close>

theorem connected_rendering:
  "circles (connected_update s ctx) =
     circles ctx @ [(getCenter 0 4, ucast kDotRadius,
                     if s_connected_current s then GColorWhite else GColorBlack)]
   \<and> led_on (connected_update s ctx) 0 4 = s_connected_current s
   \<and> led_on (connected_update (handle_connected c s) ctx) 0 4 = c
   \<and> (0 \<le> sint col \<and> sint col \<le> 1169 \<and> 0 \<le> sint row \<and> sint row \<le> 1169
        \<and> (col, row) \<noteq> (0, 4)
      \<longrightarrow> led_on (connected_update s ctx) col row = led_on ctx col row)"
  using not_connected_cell [of col row]
  by (simp add: connected_update_def toggle_led_circles led_on_toggle_led
      handle_connected_def layer_mark_dirty_def)

theorem connected_rendering_witness:
  "\<not> led_on (connected_update (handle_connected False globals_init) blank) 0 4
   \<and> led_on (connected_update (handle_connected True (handle_connected False globals_init))
         (connected_update (handle_connected False globals_init) blank)) 0 4
   \<and> 0 \<le> sint (2 :: cint) \<and> sint (2 :: cint) \<le> 1169
   \<and> 0 \<le> sint (5 :: cint) \<and> sint (5 :: cint) \<le> 1169
   \<and> (2 :: cint, 5 :: cint) \<noteq> (0, 4)
   \<and> led_on (connected_update (handle_connected True (handle_connected False globals_init))
         (connected_update (handle_connected False globals_init) blank)) 2 5
     = led_on (connected_update (handle_connected False globals_init) blank) 2 5"
  using connected_rendering [where s = "handle_connected False globals_init" and ctx = blank
      and c = False]
    connected_rendering [where s = "handle_connected True (handle_connected False globals_init)"
      and ctx = "connected_update (handle_connected False globals_init) blank"
      and c = True and col = 2 and row = 5]
  by (simp add: handle_connected_def layer_mark_dirty_def)

text \<open>
  C8 (battery rendering). For every cached battery state, \<^verbatim>\<open>battery_update\<close> draws
  nothing: the drawing surface, its list of discs and its fill colour are unchanged.
\<close>

theorem battery_update_noop:
  "battery_update s ctx = ctx
   \<and> battery_update (handle_battery b s) ctx = ctx
   \<and> circles (battery_update (handle_battery b s) ctx) = circles ctx
   \<and> fill_color (battery_update (handle_battery b s) ctx) = fill_color ctx"
  by (simp add: battery_update_def)

text \<open>
  C9 (injectivity of the coordinate mapper), amended. On all non-negative addresses the
  mapper is not injective: column 16384 lands on the centre of column 0, since
  \<open>28 * 16384\<close> is a multiple of \<open>2 ^ 16\<close>; and the separation fails from column 2340 on,
  whose x coordinate wraps to 0, only 16 from the 16 of column 0. Two addresses with
  columns and rows in 0 to 16383 that differ have distinct centres (columns in that range
  that differ give distinct x coordinates, rows distinct y coordinates). Two addresses
  whose columns lie in 0 to 2339 and differ have x coordinates at least
  \<open>2 * radius + spacing = 28\<close> apart, and likewise rows and y coordinates, so on that range
  discs of radius 12 do not overlap.
\<close>

theorem getCenter_injective:
  "(0 \<le> sint col1 \<and> sint col1 \<le> 16383 \<and> 0 \<le> sint col2 \<and> sint col2 \<le> 16383
      \<and> col1 \<noteq> col2
     \<longrightarrow> gx (getCenter col1 row1) \<noteq> gx (getCenter col2 row2))
   \<and> (0 \<le> sint row1 \<and> sint row1 \<le> 16383 \<and> 0 \<le> sint row2 \<and> sint row2 \<le> 16383
      \<and> row1 \<noteq> row2
     \<longrightarrow> gy (getCenter col1 row1) \<noteq> gy (getCenter col2 row2))
   \<and> (0 \<le> sint col1 \<and> sint col1 \<le> 16383 \<and> 0 \<le> sint col2 \<and> sint col2 \<le> 16383
      \<and> 0 \<le> sint row1 \<and> sint row1 \<le> 16383 \<and> 0 \<le> sint row2 \<and> sint row2 \<le> 16383
      \<and> (col1, row1) \<noteq> (col2, row2)
     \<longrightarrow> getCenter col1 row1 \<noteq> getCenter col2 row2)
   \<and> (0 \<le> sint col1 \<and> sint col1 \<le> 2339 \<and> 0 \<le> sint col2 \<and> sint col2 \<le> 2339
      \<and> col1 \<noteq> col2
     \<longrightarrow> 2 * sint kDotRadius + sint kSpace
           \<le> \<bar>sint (gx (getCenter col1 row1)) - sint (gx (getCenter col2 row2))\<bar>)
   \<and> (0 \<le> sint row1 \<and> sint row1 \<le> 2339 \<and> 0 \<le> sint row2 \<and> sint row2 \<le> 2339
      \<and> row1 \<noteq> row2
     \<longrightarrow> 2 * sint kDotRadius + sint kSpace
           \<le> \<bar>sint (gy (getCenter col1 row1)) - sint (gy (getCenter col2 row2))\<bar>)"
proof -
  have x: "gx (getCenter col1 row1) \<noteq> gx (getCenter col2 row2)"
    if "0 \<le> sint col1" "sint col1 \<le> 16383" "0 \<le> sint col2" "sint col2 \<le> 16383"
      "col1 \<noteq> col2"
  proof -
    have "(word_of_int (28 * sint col1 + 16) :: int16) \<noteq> word_of_int (28 * sint col2 + 16)"
      using that by (rule coordinate_distinct)
    then show ?thesis
      by (simp only: getCenter_word_of_int GPoint.select_convs) simp
  qed
  have y: "gy (getCenter col1 row1) \<noteq> gy (getCenter col2 row2)"
    if "0 \<le> sint row1" "sint row1 \<le> 16383" "0 \<le> sint row2" "sint row2 \<le> 16383"
      "row1 \<noteq> row2"
  proof -
    have "(word_of_int (28 * sint row1 + 14) :: int16) \<noteq> word_of_int (28 * sint row2 + 14)"
      using that by (rule coordinate_distinct)
    then show ?thesis
      by (simp only: getCenter_word_of_int GPoint.select_convs) simp
  qed
  have p: "getCenter col1 row1 \<noteq> getCenter col2 row2"
    if "0 \<le> sint col1" "sint col1 \<le> 16383" "0 \<le> sint col2" "sint col2 \<le> 16383"
      "0 \<le> sint row1" "sint row1 \<le> 16383" "0 \<le> sint row2" "sint row2 \<le> 16383"
      "(col1, row1) \<noteq> (col2, row2)"
  proof (cases "col1 = col2")
    case False
    from x [OF that(1-4) this] show ?thesis by auto
  next
    case True
    with that(9) have "row1 \<noteq> row2" by simp
    from y [OF that(5-8) this] show ?thesis by auto
  qed
  have sx: "28 \<le> \<bar>sint (gx (getCenter col1 row1)) - sint (gx (getCenter col2 row2))\<bar>"
    if "0 \<le> sint col1" "sint col1 \<le> 2339" "0 \<le> sint col2" "sint col2 \<le> 2339"
      "col1 \<noteq> col2"
  proof -
    have "28 \<le> \<bar>sint (word_of_int (28 * sint col1 + 16) :: int16)
                 - sint (word_of_int (28 * sint col2 + 16) :: int16)\<bar>"
      using that by (intro coordinate_separated) simp_all
    then show ?thesis
      by (simp only: getCenter_word_of_int GPoint.select_convs)
  qed
  have sy: "28 \<le> \<bar>sint (gy (getCenter col1 row1)) - sint (gy (getCenter col2 row2))\<bar>"
    if "0 \<le> sint row1" "sint row1 \<le> 2339" "0 \<le> sint row2" "sint row2 \<le> 2339"
      "row1 \<noteq> row2"
  proof -
    have "28 \<le> \<bar>sint (word_of_int (28 * sint row1 + 14) :: int16)
                 - sint (word_of_int (28 * sint row2 + 14) :: int16)\<bar>"
      using that by (intro coordinate_separated) simp_all
    then show ?thesis
      by (simp only: getCenter_word_of_int GPoint.select_convs)
  qed
  have k: "2 * sint kDotRadius + sint kSpace = 28"
    by (simp add: k_defs)
  show ?thesis
    unfolding k using x y p sx sy by blast
qed

theorem getCenter_injective_witness:
  "0 \<le> sint (1169 :: cint) \<and> sint (1169 :: cint) \<le> 2339
   \<and> 0 \<le> sint (1170 :: cint) \<and> sint (1170 :: cint) \<le> 2339
   \<and> 0 \<le> sint (4 :: cint) \<and> sint (4 :: cint) \<le> 2339
   \<and> 0 \<le> sint (2339 :: cint) \<and> sint (2339 :: cint) \<le> 2339
   \<and> (1169 :: cint) \<noteq> 1170 \<and> (4 :: cint) \<noteq> 2339
   \<and> getCenter 1169 4 \<noteq> getCenter 1170 2339
   \<and> 28 \<le> \<bar>sint (gx (getCenter 1169 4)) - sint (gx (getCenter 1170 2339))\<bar>
   \<and> 28 \<le> \<bar>sint (gy (getCenter 1169 4)) - sint (gy (getCenter 1170 2339))\<bar>"
  using getCenter_injective [of 1169 1170 4 2339] by (simp add: k_defs)

theorem getCenter_injective_counterexample:
  "0 \<le> sint (16384 :: cint) \<and> (16384 :: cint, 0 :: cint) \<noteq> (0, 0)
   \<and> getCenter 16384 0 = getCenter 0 0
   \<and> 0 \<le> sint (2340 :: cint) \<and> (2340 :: cint) \<noteq> 0
   \<and> sint (gx (getCenter 2340 0)) = 0 \<and> sint (gx (getCenter 0 0)) = 16
   \<and> 2 * sint kDotRadius + sint kSpace = 28"
  by (simp add: getCenter_word_of_int k_defs)

text \<open>
  C10 (handlers write their own variable only). \<^verbatim>\<open>handle_battery\<close> stores its argument in
  \<open>s_battery_current\<close> and leaves \<open>s_connected_current\<close> as it was; \<^verbatim>\<open>handle_connected\<close>
  stores its argument in \<open>s_connected_current\<close> and leaves \<open>s_battery_current\<close> as it was.
\<close>

theorem handlers_frame:
  "s_battery_current (handle_battery b s) = b
   \<and> s_connected_current (handle_battery b s) = s_connected_current s
   \<and> s_connected_current (handle_connected c s) = c
   \<and> s_battery_current (handle_connected c s) = s_battery_current s"
  by (simp add: handle_battery_def handle_connected_def layer_mark_dirty_def)

end
